theory Spec2Isabelle
  imports Complex_Main "HOL-Library.Word" "HOL-Library.Signed_Division"
begin

section \<open>ChemE Car Motor Controller (MotorController18.ino)\<close>

text \<open>
  The sketch is embedded as state transformers over a record of its globals. Everything
  the sketch does to the outside world (pin writes, servo calls, serial output, delays) is
  appended to an event trace, in program order; the two drive procedures also log their own
  entry, so that calls can be counted. What the sketch reads from the outside world
  (\<open>digitalRead\<close>, \<open>analogRead\<close>, \<open>millis\<close>) is an input of the model, one value per
  read site.

  \<open>int\<close> is the 16-bit \<open>int\<close> of the AVR boards, \<open>unsigned long\<close> is 32 bits.
  A \<open>float\<close> is represented by the real number it denotes and float arithmetic is
  taken without rounding; the comparisons of the sketch are exact on such values.
\<close>

type_synonym c_int = "16 word"
type_synonym ulong = "32 word"

datatype level = LOW | HIGH

datatype pin_mode = INPUT | OUTPUT

subsection \<open>Configuration constants\<close>

definition dp_spect :: nat where "dp_spect = 0"
definition dp_batok :: nat where "dp_batok = 1"
definition dp_pemok :: nat where "dp_pemok = 2"
definition dp_swton :: nat where "dp_swton = 4"
definition dp_regon :: nat where "dp_regon = 8"
definition dp_serv1 :: nat where "dp_serv1 = 9"
definition dp_serv2 :: nat where "dp_serv2 = 10"
definition dp_servs :: nat where "dp_servs = 11"

definition div_const :: real where "div_const = 4.7 / (10 + 4.7)"

definition vbat_ok :: real where "vbat_ok = 5.5"
definition vpem_ok :: real where "vpem_ok = 7"

definition vdrop_frac :: real where "vdrop_frac = 0.8"
definition stir_speed :: int where "stir_speed = 9"
definition setup_samples :: c_int where "setup_samples = 10"

definition update_rate :: int where "update_rate = 5000"

definition debug_level :: int where "debug_level = 3"

subsection \<open>Events and state\<close>

datatype servo = Servo1 | Servo2 | Stirvo

text \<open>
  A diagnostic message is its message site together with the values formatted into it;
  the formatting of numbers as text is not modelled.
\<close>

datatype msg =
    Msg_Reset
  | Msg_SettingUp
  | Msg_Read c_int
  | Msg_Baseline c_int
  | Msg_StartingStir
  | Msg_Ready
  | Msg_ReadingVoltages
  | Msg_BatteryVoltage real
  | Msg_PemVoltage real
  | Msg_LowBattery real
  | Msg_LowFuelCell real
  | Msg_StartingRun real
  | Msg_RunAborted
  | Msg_LightLevel c_int c_int
  | Msg_EndingRun real real

text \<open>
  \<open>Debug l m\<close> is the call \<open>debug(l, m)\<close>, that is, the message handed to the levelled
  sink; \<open>Println l m\<close> is the line \<open>[DEBUG l] m\<close> that the sink writes to the serial port
  when the level passes its filter.
\<close>

datatype event =
    PinMode nat pin_mode
  | DigitalWrite nat level
  | Attach servo nat
  | Write servo int
  | Detach servo
  | SerialBegin nat
  | Debug int msg
  | Println int msg
  | Delay nat
  | Enter_attachAndWrite
  | Enter_detachAndWrite

record state =
  base_light :: c_int
  run_time :: ulong
  update_time :: ulong
  run_car :: bool
  color_change :: bool
  servo1_attached :: bool
  servo2_attached :: bool
  stirvo_attached :: bool
  trace :: "event list"

text \<open>The globals as initialised at reset; statics without initialiser are zero.\<close>

definition power_on :: state where
  "power_on = \<lparr> base_light = 1023, run_time = 0, update_time = 0,
      run_car = False, color_change = False,
      servo1_attached = False, servo2_attached = False, stirvo_attached = False,
      trace = [] \<rparr>"

definition emit :: "event list \<Rightarrow> state \<Rightarrow> state" where
  "emit es st = st\<lparr>trace := trace st @ es\<rparr>"

subsection \<open>Helpers of the sketch\<close>

definition debug :: "int \<Rightarrow> msg \<Rightarrow> state \<Rightarrow> state" where
  "debug lvl m st =
     emit (Debug lvl m #
           (if debug_level = lvl \<or> debug_level = 4 then [Println lvl m] else [])) st"

definition getSeconds :: "ulong \<Rightarrow> real" where
  "getSeconds m = real (unat m) / 1000.0"

text \<open>
  The conversion of a raw sample to volts, taken exactly. The converted samples nearest to
  the thresholds of the voltage check (359 and 360 for 5.5 V, 457 and 458 for 7 V) are
  more than 0.001 V away from them, far more than the rounding of the float operations.
\<close>

definition analogToV :: "c_int \<Rightarrow> real" where
  "analogToV v = ((real_of_int (sint v) / 1023) * 5.0) / div_const"

text \<open>The conversion \<open>int(x)\<close> of a float: truncation towards zero.\<close>

definition float_to_int :: "real \<Rightarrow> c_int" where
  "float_to_int x = word_of_int (if 0 \<le> x then \<lfloor>x\<rfloor> else \<lceil>x\<rceil>)"

text \<open>
  The expression \<open>int(vdrop_frac*base_light)\<close>, used twice in \<open>loop\<close>. The product
  is taken exactly. For a baseline in the range 0 to 1023 of the converter the float
  product differs from it by less than 0.0001 and is never below an integer that the exact
  product reaches, while the exact product has fractional part 0, 0.2, 0.4, 0.6 or 0.8: the
  truncation is the same.
\<close>

definition light_threshold :: "state \<Rightarrow> c_int" where
  "light_threshold st = float_to_int (vdrop_frac * real_of_int (sint (base_light st)))"

definition attachAndWrite :: "state \<Rightarrow> state" where
  "attachAndWrite st0 =
     (let st1 = emit [Enter_attachAndWrite, DigitalWrite dp_regon HIGH] st0;
          st2 = (if \<not> servo1_attached st1
                 then (emit [Attach Servo1 dp_serv1] st1)\<lparr>servo1_attached := True\<rparr>
                 else st1);
          st3 = (if \<not> servo2_attached st2
                 then (emit [Attach Servo2 dp_serv2] st2)\<lparr>servo2_attached := True\<rparr>
                 else st2)
      in emit [Write Servo1 180, Write Servo2 0] st3)"

definition detachAndWrite :: "state \<Rightarrow> state" where
  "detachAndWrite st0 =
     (let st1 = emit [Enter_detachAndWrite, Write Servo1 90, Write Servo2 90] st0;
          st2 = (emit [Detach Servo1] st1)\<lparr>servo1_attached := False\<rparr>;
          st3 = (emit [Detach Servo2] st2)\<lparr>servo2_attached := False\<rparr>
      in emit [DigitalWrite dp_regon LOW] st3)"

subsection \<open>Initialisation\<close>

text \<open>
  The inputs of \<open>setup\<close>: the successive readings of the photoresistor (\<open>photo i\<close> is the
  reading of iteration \<open>i\<close>) and the two voltage divider readings.
\<close>

record setup_in =
  photo :: "nat \<Rightarrow> c_int"
  raw_bat :: c_int
  raw_pem :: c_int

definition setup_pins :: "state \<Rightarrow> state" where
  "setup_pins st0 =
     (let st1 = (if debug_level > 0 then emit [SerialBegin 9600] st0 else st0);
          st2 = debug 4 Msg_Reset st1;
          st3 = emit [PinMode dp_spect OUTPUT, PinMode dp_batok OUTPUT,
                      PinMode dp_pemok OUTPUT, PinMode dp_swton INPUT,
                      PinMode dp_regon OUTPUT, PinMode dp_serv1 OUTPUT,
                      PinMode dp_serv2 OUTPUT, PinMode dp_servs OUTPUT] st2
      in emit [DigitalWrite dp_regon LOW, DigitalWrite dp_spect HIGH] st3)"

text \<open>The sampling loop \<open>for(int i = 0; i < setup_samples; i++)\<close>, from iteration \<open>i\<close>.\<close>

function sample_loop :: "nat \<Rightarrow> nat \<Rightarrow> (nat \<Rightarrow> c_int) \<Rightarrow> c_int \<Rightarrow> state \<Rightarrow> c_int \<times> state" where
  "sample_loop i n ph acc st =
     (if i < n
      then (let val = ph i;
                acc' = acc + val;
                st' = emit [Delay 50] (debug 4 (Msg_Read val) st)
            in sample_loop (Suc i) n ph acc' st')
      else (acc, st))"
  by pat_completeness auto
termination
  by (relation "measure (\<lambda>(i, n, ph, acc, st). n - i)") auto

declare sample_loop.simps [simp del]

text \<open>
  Division of two \<open>int\<close>s: the quotient truncated towards zero. (The accumulator
  \<open>sum\<close> of the sketch is called \<open>acc\<close> below.)
\<close>

definition int_div :: "c_int \<Rightarrow> c_int \<Rightarrow> c_int" where
  "int_div a b = word_of_int (sint a sdiv sint b)"

definition calibrate :: "c_int \<Rightarrow> (nat \<Rightarrow> c_int) \<Rightarrow> state \<Rightarrow> state" where
  "calibrate n ph st0 =
     (let st1 = debug 4 Msg_SettingUp st0;
          (acc, st2) = sample_loop 0 (nat (sint n)) ph 0 st1;
          st3 = st2\<lparr>base_light := int_div acc n\<rparr>
      in debug 1 (Msg_Baseline (base_light st3)) st3)"

definition start_stir :: "state \<Rightarrow> state" where
  "start_stir st0 =
     (let st1 = debug 4 Msg_StartingStir st0;
          st2 = (emit [Attach Stirvo dp_servs] st1)\<lparr>stirvo_attached := True\<rparr>
      in emit [Write Stirvo ((stir_speed - 9) * - 10)] st2)"

fun flash :: "nat \<Rightarrow> state \<Rightarrow> state" where
  "flash 0 st = st"
| "flash (Suc k) st =
     flash k (emit [DigitalWrite dp_batok LOW, DigitalWrite dp_pemok LOW, Delay 150,
                    DigitalWrite dp_batok HIGH, DigitalWrite dp_pemok HIGH, Delay 350] st)"

definition ready_signal :: "state \<Rightarrow> state" where
  "ready_signal st0 = emit [Delay 500] (flash 4 (debug 4 Msg_Ready st0))"

text \<open>Lines 162 to 173 of \<open>setup\<close>, on the two converted voltages.\<close>

definition check_voltages :: "real \<Rightarrow> real \<Rightarrow> state \<Rightarrow> state" where
  "check_voltages vbat vpem st0 =
     (let st1 = debug 4 (Msg_BatteryVoltage vbat) st0;
          st2 = debug 4 (Msg_PemVoltage vpem) st1;
          st3 = (if vbat < vbat_ok
                 then debug 2 (Msg_LowBattery vbat) (emit [DigitalWrite dp_batok LOW] st2)
                 else st2)
      in (if vpem < vpem_ok
          then debug 2 (Msg_LowFuelCell vpem) (emit [DigitalWrite dp_pemok LOW] st3)
          else st3))"

definition read_voltages :: "setup_in \<Rightarrow> state \<Rightarrow> state" where
  "read_voltages inp st0 =
     (let st1 = debug 4 Msg_ReadingVoltages st0;
          vbat = analogToV (raw_bat inp);
          vpem = analogToV (raw_pem inp)
      in check_voltages vbat vpem st1)"

text \<open>The procedure \<open>setup()\<close> of the sketch.\<close>

definition sketch_setup :: "setup_in \<Rightarrow> state \<Rightarrow> state" where
  "sketch_setup inp st =
     read_voltages inp
       (ready_signal (start_stir (calibrate setup_samples (photo inp) (setup_pins st))))"

subsection \<open>The control loop\<close>

text \<open>
  The inputs of one pass of \<open>loop\<close>, one field per read site: the switch as read by the
  first condition (line 179) and by the second (line 184), \<open>millis()\<close> at lines 182,
  192, 193 and 202, and the photoresistor at line 191. A read that the pass does not
  perform leaves its field unused.
\<close>

record cycle_in =
  sw_first :: level
  sw_second :: level
  t_start :: ulong
  light :: c_int
  t_check :: ulong
  t_update :: ulong
  t_end :: ulong

definition switch_handling :: "cycle_in \<Rightarrow> state \<Rightarrow> state" where
  "switch_handling i st =
     (if \<not> run_car st \<and> \<not> color_change st \<and> sw_first i = HIGH then
        (let st1 = st\<lparr>run_car := True\<rparr>;
             st2 = attachAndWrite st1;
             st3 = st2\<lparr>run_time := t_start i\<rparr>
         in debug 3 (Msg_StartingRun (getSeconds (run_time st3))) st3)
      else if \<not> color_change st \<and> sw_second i = LOW then
        (let st1 = st\<lparr>run_time := 0\<rparr>;
             st2 = (if run_car st1 then debug 3 Msg_RunAborted st1 else st1);
             st3 = st2\<lparr>run_car := False\<rparr>
         in detachAndWrite st3)
      else st)"

definition light_report :: "cycle_in \<Rightarrow> state \<Rightarrow> state" where
  "light_report i st =
     (if t_check i - update_time st > word_of_int update_rate then
        (let st1 = st\<lparr>update_time := t_update i\<rparr>
         in debug 1 (Msg_LightLevel (light i) (light_threshold st1)) st1)
      else st)"

definition endpoint_check :: "cycle_in \<Rightarrow> state \<Rightarrow> state" where
  "endpoint_check i st =
     (if run_car st \<and> sint (light i) < sint (light_threshold st) then
        (let st1 = st\<lparr>run_car := False, color_change := True\<rparr>;
             st2 = detachAndWrite st1;
             cur_time = t_end i;
             st3 = debug 3 (Msg_EndingRun (getSeconds cur_time)
                                          (getSeconds (cur_time - run_time st2))) st2
         in st3\<lparr>run_time := 0\<rparr>)
      else st)"

definition loop :: "cycle_in \<Rightarrow> state \<Rightarrow> state" where
  "loop i st = endpoint_check i (light_report i (switch_handling i st))"

text \<open>The control loop over a finite stream of per-pass inputs, and the states it visits.\<close>

fun run_cycles :: "cycle_in list \<Rightarrow> state \<Rightarrow> state" where
  "run_cycles [] st = st"
| "run_cycles (i # is) st = run_cycles is (loop i st)"

fun trajectory :: "cycle_in list \<Rightarrow> state \<Rightarrow> state list" where
  "trajectory [] st = []"
| "trajectory (i # is) st = loop i st # trajectory is (loop i st)"

subsection \<open>The vocabulary of the specification\<close>

text \<open>
  The specification's VehicleState, read off the two flags of the sketch:
  \<open>color_change\<close> is the latched endpoint flag, \<open>run_car\<close> the drive flag.
\<close>

datatype vehicle_state = Idle | Running | Stopped

definition vstate :: "state \<Rightarrow> vehicle_state" where
  "vstate st = (if color_change st then Stopped else if run_car st then Running else Idle)"

text \<open>
  \<open>engage()\<close> is \<open>attachAndWrite\<close> and \<open>disengage()\<close> is \<open>detachAndWrite\<close>. Calls
  are read off the trace: the calls of the two drive procedures in order, their number,
  every actuation event (a drive call, a pin write or a servo call), the events of the
  drive alone (the converter pin and the two drive servos), and the attach calls of a servo.
\<close>

fun is_drive_call :: "event \<Rightarrow> bool" where
  "is_drive_call Enter_attachAndWrite = True"
| "is_drive_call Enter_detachAndWrite = True"
| "is_drive_call _ = False"

definition drive_calls :: "event list \<Rightarrow> event list" where
  "drive_calls tr = filter is_drive_call tr"

definition engage_count :: "event list \<Rightarrow> nat" where
  "engage_count tr = count_list tr Enter_attachAndWrite"

definition disengage_count :: "event list \<Rightarrow> nat" where
  "disengage_count tr = count_list tr Enter_detachAndWrite"

fun is_actuation :: "event \<Rightarrow> bool" where
  "is_actuation Enter_attachAndWrite = True"
| "is_actuation Enter_detachAndWrite = True"
| "is_actuation (DigitalWrite p l) = True"
| "is_actuation (Attach sv p) = True"
| "is_actuation (Write sv a) = True"
| "is_actuation (Detach sv) = True"
| "is_actuation _ = False"

definition actuation :: "event list \<Rightarrow> event list" where
  "actuation tr = filter is_actuation tr"

fun is_drive_event :: "event \<Rightarrow> bool" where
  "is_drive_event Enter_attachAndWrite = True"
| "is_drive_event Enter_detachAndWrite = True"
| "is_drive_event (DigitalWrite p l) = (p = dp_regon)"
| "is_drive_event (Attach sv p) = (sv \<noteq> Stirvo)"
| "is_drive_event (Write sv a) = (sv \<noteq> Stirvo)"
| "is_drive_event (Detach sv) = (sv \<noteq> Stirvo)"
| "is_drive_event _ = False"

definition drive_events :: "event list \<Rightarrow> event list" where
  "drive_events tr = filter is_drive_event tr"

fun is_attach :: "servo \<Rightarrow> event \<Rightarrow> bool" where
  "is_attach sv (Attach sv' p) = (sv' = sv)"
| "is_attach sv _ = False"

definition attach_count :: "servo \<Rightarrow> event list \<Rightarrow> nat" where
  "attach_count sv tr = length (filter (is_attach sv) tr)"

text \<open>
  The end-of-run reports of a trace: the message "Ending run at T=... Run Time is ...", as
  handed to the sink and as printed.
\<close>

fun is_ending_run :: "msg \<Rightarrow> bool" where
  "is_ending_run (Msg_EndingRun a b) = True"
| "is_ending_run _ = False"

fun is_run_report :: "event \<Rightarrow> bool" where
  "is_run_report (Debug l m) = is_ending_run m"
| "is_run_report (Println l m) = is_ending_run m"
| "is_run_report _ = False"

definition run_reports :: "event list \<Rightarrow> event list" where
  "run_reports tr = filter is_run_report tr"

text \<open>The events that a step appends to the trace.\<close>

definition new_events :: "(state \<Rightarrow> state) \<Rightarrow> state \<Rightarrow> event list" where
  "new_events f st = drop (length (trace st)) (trace (f st))"

text \<open>The drive calls of each pass of the control loop, pass by pass.\<close>

fun calls_per_cycle :: "cycle_in list \<Rightarrow> state \<Rightarrow> event list list" where
  "calls_per_cycle [] st = []"
| "calls_per_cycle (i # is) st =
     drive_calls (new_events (loop i) st) # calls_per_cycle is (loop i st)"

text \<open>
  The level of an output pin after a trace: that of the last write to it (\<open>LOW\<close> when
  it was never written).
\<close>

definition pin_level :: "nat \<Rightarrow> event list \<Rightarrow> level" where
  "pin_level p tr =
     foldl (\<lambda>l e. case e of DigitalWrite q v \<Rightarrow> (if q = p then v else l) | _ \<Rightarrow> l) LOW tr"

text \<open>
  A pass in which the switch reads \<open>sw\<close> at both read sites, the photoresistor reads
  \<open>l\<close> and every \<open>millis()\<close> returns \<open>t\<close>.
\<close>

definition cycle_at :: "level \<Rightarrow> c_int \<Rightarrow> ulong \<Rightarrow> cycle_in" where
  "cycle_at sw l t =
     \<lparr> sw_first = sw, sw_second = sw, t_start = t, light = l,
       t_check = t, t_update = t, t_end = t \<rparr>"

text \<open>The input stream of the end-to-end example, at the times \<open>t1\<close> to \<open>t4\<close>.\<close>

definition example_stream :: "ulong \<Rightarrow> ulong \<Rightarrow> ulong \<Rightarrow> ulong \<Rightarrow> cycle_in list" where
  "example_stream t1 t2 t3 t4 =
     [cycle_at LOW 1000 t1, cycle_at HIGH 1000 t2, cycle_at HIGH 1000 t3, cycle_at HIGH 750 t4]"

text \<open>
  The sketch after \<open>setup()\<close> when every calibration sample reads \<open>b\<close> and both
  voltage dividers read 600 (about 9.2 V).
\<close>

definition booted :: "c_int \<Rightarrow> state" where
  "booted b = sketch_setup \<lparr> photo = (\<lambda>_. b), raw_bat = 600, raw_pem = 600 \<rparr> power_on"

section \<open>Frame lemmas\<close>

lemma emit_fields [simp]:
  "base_light (emit es st) = base_light st"
  "run_time (emit es st) = run_time st"
  "update_time (emit es st) = update_time st"
  "run_car (emit es st) = run_car st"
  "color_change (emit es st) = color_change st"
  "servo1_attached (emit es st) = servo1_attached st"
  "servo2_attached (emit es st) = servo2_attached st"
  "stirvo_attached (emit es st) = stirvo_attached st"
  "trace (emit es st) = trace st @ es"
  by (simp_all add: emit_def)

lemma debug_fields [simp]:
  "base_light (debug l m st) = base_light st"
  "run_time (debug l m st) = run_time st"
  "update_time (debug l m st) = update_time st"
  "run_car (debug l m st) = run_car st"
  "color_change (debug l m st) = color_change st"
  "servo1_attached (debug l m st) = servo1_attached st"
  "servo2_attached (debug l m st) = servo2_attached st"
  "stirvo_attached (debug l m st) = stirvo_attached st"
  by (simp_all add: debug_def)

lemma sample_loop_fields:
  "sample_loop i n ph acc st = (acc', st') \<Longrightarrow>
     run_car st' = run_car st \<and> color_change st' = color_change st \<and>
     run_time st' = run_time st \<and> update_time st' = update_time st \<and>
     servo1_attached st' = servo1_attached st \<and> servo2_attached st' = servo2_attached st"
proof (induction i n ph acc st rule: sample_loop.induct)
  case (1 i n ph acc st)
  show ?case
  proof (cases "i < n")
    case True
    with "1.prems"
    have "sample_loop (Suc i) n ph (acc + ph i)
            (emit [Delay 50] (debug 4 (Msg_Read (ph i)) st)) = (acc', st')"
      by (simp add: Let_def sample_loop.simps [of i])
    from "1.IH" [OF True refl refl refl this] show ?thesis
      by simp
  next
    case False
    with "1.prems" show ?thesis by (simp add: sample_loop.simps [of i])
  qed
qed

text \<open>On constant readings the loop adds the reading once per remaining iteration.\<close>

lemma sample_loop_const:
  "\<forall>k<n. ph k = v \<Longrightarrow> i \<le> n \<Longrightarrow>
     fst (sample_loop i n ph acc st) = acc + of_nat (n - i) * v"
proof (induction i n ph acc st rule: sample_loop.induct)
  case (1 i n ph acc st)
  show ?case
  proof (cases "i < n")
    case True
    have "fst (sample_loop (Suc i) n ph (acc + ph i)
                 (emit [Delay 50] (debug 4 (Msg_Read (ph i)) st)))
            = (acc + ph i) + of_nat (n - Suc i) * v"
      using "1.IH" [OF True refl refl refl] "1.prems" True by simp
    moreover have "ph i = v" using "1.prems" True by simp
    moreover have "n - i = Suc (n - Suc i)" using True by simp
    ultimately show ?thesis using True
      by (simp add: Let_def algebra_simps sample_loop.simps [of i])
  next
    case False
    then show ?thesis by (simp add: sample_loop.simps [of i])
  qed
qed

lemma flash_fields [simp]:
  "base_light (flash k st) = base_light st"
  "run_time (flash k st) = run_time st"
  "update_time (flash k st) = update_time st"
  "run_car (flash k st) = run_car st"
  "color_change (flash k st) = color_change st"
  "servo1_attached (flash k st) = servo1_attached st"
  "servo2_attached (flash k st) = servo2_attached st"
  by (induction k arbitrary: st; simp)+

lemma calibrate_fields [simp]:
  "run_time (calibrate n ph st) = run_time st"
  "update_time (calibrate n ph st) = update_time st"
  "run_car (calibrate n ph st) = run_car st"
  "color_change (calibrate n ph st) = color_change st"
  "servo1_attached (calibrate n ph st) = servo1_attached st"
  "servo2_attached (calibrate n ph st) = servo2_attached st"
proof -
  obtain a s' where sl: "sample_loop 0 (nat (sint n)) ph 0 (debug 4 Msg_SettingUp st) = (a, s')"
    by (cases "sample_loop 0 (nat (sint n)) ph 0 (debug 4 Msg_SettingUp st)")
  from sample_loop_fields [OF sl]
  show "run_time (calibrate n ph st) = run_time st"
    "update_time (calibrate n ph st) = update_time st"
    "run_car (calibrate n ph st) = run_car st"
    "color_change (calibrate n ph st) = color_change st"
    "servo1_attached (calibrate n ph st) = servo1_attached st"
    "servo2_attached (calibrate n ph st) = servo2_attached st"
    by (simp_all add: calibrate_def sl Let_def)
qed

lemma calibrate_base_light:
  "base_light (calibrate n ph st) =
     int_div (fst (sample_loop 0 (nat (sint n)) ph 0 (debug 4 Msg_SettingUp st))) n"
  by (simp add: calibrate_def Let_def split: prod.split)

lemma setup_pins_fields [simp]:
  "base_light (setup_pins st) = base_light st"
  "run_time (setup_pins st) = run_time st"
  "update_time (setup_pins st) = update_time st"
  "run_car (setup_pins st) = run_car st"
  "color_change (setup_pins st) = color_change st"
  "servo1_attached (setup_pins st) = servo1_attached st"
  "servo2_attached (setup_pins st) = servo2_attached st"
  by (simp_all add: setup_pins_def Let_def)

lemma start_stir_fields [simp]:
  "base_light (start_stir st) = base_light st"
  "run_time (start_stir st) = run_time st"
  "update_time (start_stir st) = update_time st"
  "run_car (start_stir st) = run_car st"
  "color_change (start_stir st) = color_change st"
  "servo1_attached (start_stir st) = servo1_attached st"
  "servo2_attached (start_stir st) = servo2_attached st"
  by (simp_all add: start_stir_def Let_def)

lemma ready_signal_fields [simp]:
  "base_light (ready_signal st) = base_light st"
  "run_time (ready_signal st) = run_time st"
  "update_time (ready_signal st) = update_time st"
  "run_car (ready_signal st) = run_car st"
  "color_change (ready_signal st) = color_change st"
  "servo1_attached (ready_signal st) = servo1_attached st"
  "servo2_attached (ready_signal st) = servo2_attached st"
  by (simp_all add: ready_signal_def)

lemma check_voltages_fields [simp]:
  "base_light (check_voltages vb vp st) = base_light st"
  "run_time (check_voltages vb vp st) = run_time st"
  "update_time (check_voltages vb vp st) = update_time st"
  "run_car (check_voltages vb vp st) = run_car st"
  "color_change (check_voltages vb vp st) = color_change st"
  "servo1_attached (check_voltages vb vp st) = servo1_attached st"
  "servo2_attached (check_voltages vb vp st) = servo2_attached st"
  "stirvo_attached (check_voltages vb vp st) = stirvo_attached st"
  by (simp_all add: check_voltages_def Let_def)

lemma setup_fields [simp]:
  "run_time (sketch_setup inp st) = run_time st"
  "update_time (sketch_setup inp st) = update_time st"
  "run_car (sketch_setup inp st) = run_car st"
  "color_change (sketch_setup inp st) = color_change st"
  "servo1_attached (sketch_setup inp st) = servo1_attached st"
  "servo2_attached (sketch_setup inp st) = servo2_attached st"
  by (simp_all add: sketch_setup_def read_voltages_def Let_def)

lemma setup_base_light:
  "base_light (sketch_setup inp st) =
     int_div (fst (sample_loop 0 (nat (sint setup_samples)) (photo inp) 0
                     (debug 4 Msg_SettingUp (setup_pins st)))) setup_samples"
  by (simp add: sketch_setup_def read_voltages_def Let_def calibrate_base_light)

section \<open>Calibration\<close>

lemma sdiv_mult_cancel:
  assumes "0 < (n::int)"
  shows "(n * x) sdiv n = x"
proof -
  have "\<bar>n * x\<bar> div \<bar>n\<bar> = \<bar>x\<bar>"
    using assms by (simp add: abs_mult)
  moreover have "sgn (n * x) = sgn x" "sgn n = 1"
    using assms by (simp_all add: sgn_mult)
  ultimately have "(n * x) sdiv n = sgn x * \<bar>x\<bar>"
    by (simp add: signed_divide_int_def)
  then show ?thesis by (simp add: mult_sgn_abs)
qed

lemma int_div_mult:
  assumes "0 < sint n" and "- 32768 \<le> sint n * sint v" and "sint n * sint v \<le> 32767"
  shows "int_div (n * v) (n::c_int) = v"
proof -
  have "sint (n * v) = signed_take_bit 15 (sint n * sint v)"
    by (simp add: sint_word_ariths)
  also have "\<dots> = sint n * sint v"
    using assms by (intro signed_take_bit_int_eq_self) simp_all
  finally show ?thesis
    using assms(1) by (simp add: int_div_def sdiv_mult_cancel)
qed

text \<open>
  The mean of \<open>n\<close> equal samples is the sample, as long as their sum fits an \<open>int\<close>.
\<close>

lemma calibrate_constant:
  assumes "0 < sint n" and "\<forall>i < nat (sint n). ph i = v"
    and "- 32768 \<le> sint n * sint v" and "sint n * sint v \<le> 32767"
  shows "base_light (calibrate n ph st) = v"
proof -
  have "fst (sample_loop 0 (nat (sint n)) ph 0 (debug 4 Msg_SettingUp st))
          = of_nat (nat (sint n)) * v"
    using sample_loop_const [OF assms(2), of 0 0] by simp
  also have "(of_nat (nat (sint n)) :: c_int) = n"
    using assms(1) by simp
  finally show ?thesis
    using assms by (simp add: calibrate_base_light int_div_mult)
qed

lemma setup_constant:
  assumes "\<forall>i<10. photo inp i = v" and "- 3276 \<le> sint v" and "sint v \<le> 3276"
  shows "base_light (sketch_setup inp st) = v"
proof -
  have "base_light (calibrate setup_samples (photo inp) (setup_pins st)) = v"
    using assms by (intro calibrate_constant) (simp_all add: setup_samples_def)
  then show ?thesis
    by (simp add: sketch_setup_def read_voltages_def Let_def)
qed

lemma booted_fields:
  "- 3276 \<le> sint b \<Longrightarrow> sint b \<le> 3276 \<Longrightarrow> base_light (booted b) = b"
  "run_car (booted b) = False"
  "color_change (booted b) = False"
  "run_time (booted b) = 0"
  "update_time (booted b) = 0"
  "servo1_attached (booted b) = False"
  "servo2_attached (booted b) = False"
  by (simp_all add: booted_def setup_constant power_on_def)

text \<open>
  Claim C8. When all ten calibration samples of \<open>setup()\<close> read the same value \<open>v\<close>,
  the baseline light level computed by \<open>setup()\<close> is exactly \<open>v\<close>. The samples are
  analog readings (0 to 1023 on the 10-bit converter); the statement holds for every value
  whose tenfold sum fits the 16-bit accumulator.
\<close>

theorem calibration_identical_samples:
  assumes "\<forall>i < nat (sint setup_samples). photo inp i = v"
    and "- 3276 \<le> sint v" and "sint v \<le> 3276"
  shows "base_light (sketch_setup inp st) = v"
  using assms by (intro setup_constant) (simp_all add: setup_samples_def)

theorem calibration_identical_samples_witness:
  "- 3276 \<le> sint (1023 :: c_int) \<and> sint (1023 :: c_int) \<le> 3276 \<and>
   base_light (sketch_setup \<lparr>photo = (\<lambda>_. 1023), raw_bat = 600, raw_pem = 600\<rparr> power_on) = 1023"
  using calibration_identical_samples
    [of "\<lparr>photo = (\<lambda>_. 1023), raw_bat = 600, raw_pem = 600\<rparr>" 1023 power_on]
  by simp

section \<open>The steps of the control loop\<close>

lemma light_threshold_frame [simp]:
  "light_threshold (emit es st) = light_threshold st"
  "light_threshold (debug l m st) = light_threshold st"
  "light_threshold (st\<lparr>run_car := rc\<rparr>) = light_threshold st"
  "light_threshold (st\<lparr>run_time := rt\<rparr>) = light_threshold st"
  "light_threshold (st\<lparr>update_time := ut\<rparr>) = light_threshold st"
  "light_threshold (st\<lparr>color_change := cc\<rparr>) = light_threshold st"
  "light_threshold (st\<lparr>trace := tr\<rparr>) = light_threshold st"
  by (simp_all add: light_threshold_def)

text \<open>With \<open>debug_level = 3\<close> the sink prints the messages of level 3 and no others.\<close>

lemma debug_trace:
  "trace (debug l m st) = trace st @ Debug l m # (if l = 3 then [Println l m] else [])"
  by (simp add: debug_def debug_level_def)

lemma attachAndWrite_fields [simp]:
  "base_light (attachAndWrite st) = base_light st"
  "run_time (attachAndWrite st) = run_time st"
  "update_time (attachAndWrite st) = update_time st"
  "run_car (attachAndWrite st) = run_car st"
  "color_change (attachAndWrite st) = color_change st"
  "servo1_attached (attachAndWrite st) = True"
  "servo2_attached (attachAndWrite st) = True"
  "stirvo_attached (attachAndWrite st) = stirvo_attached st"
  "light_threshold (attachAndWrite st) = light_threshold st"
  by (simp_all add: attachAndWrite_def Let_def light_threshold_def)

lemma attachAndWrite_trace:
  "trace (attachAndWrite st) =
     trace st @ [Enter_attachAndWrite, DigitalWrite dp_regon HIGH] @
     (if servo1_attached st then [] else [Attach Servo1 dp_serv1]) @
     (if servo2_attached st then [] else [Attach Servo2 dp_serv2]) @
     [Write Servo1 180, Write Servo2 0]"
  by (simp add: attachAndWrite_def Let_def)

lemma detachAndWrite_fields [simp]:
  "base_light (detachAndWrite st) = base_light st"
  "run_time (detachAndWrite st) = run_time st"
  "update_time (detachAndWrite st) = update_time st"
  "run_car (detachAndWrite st) = run_car st"
  "color_change (detachAndWrite st) = color_change st"
  "servo1_attached (detachAndWrite st) = False"
  "servo2_attached (detachAndWrite st) = False"
  "stirvo_attached (detachAndWrite st) = stirvo_attached st"
  "light_threshold (detachAndWrite st) = light_threshold st"
  by (simp_all add: detachAndWrite_def Let_def light_threshold_def)

lemma detachAndWrite_trace:
  "trace (detachAndWrite st) =
     trace st @ [Enter_detachAndWrite, Write Servo1 90, Write Servo2 90,
                 Detach Servo1, Detach Servo2, DigitalWrite dp_regon LOW]"
  by (simp add: detachAndWrite_def Let_def)

lemma light_report_fields [simp]:
  "base_light (light_report i st) = base_light st"
  "run_time (light_report i st) = run_time st"
  "run_car (light_report i st) = run_car st"
  "color_change (light_report i st) = color_change st"
  "servo1_attached (light_report i st) = servo1_attached st"
  "servo2_attached (light_report i st) = servo2_attached st"
  "stirvo_attached (light_report i st) = stirvo_attached st"
  "light_threshold (light_report i st) = light_threshold st"
  by (simp_all add: light_report_def Let_def)

lemma light_report_trace:
  "trace (light_report i st) =
     trace st @ (if word_of_int update_rate < t_check i - update_time st
                 then [Debug 1 (Msg_LightLevel (light i) (light_threshold st))] else [])"
  by (simp add: light_report_def Let_def debug_trace)

text \<open>The three outcomes of the switch handling, and the two of the endpoint check.\<close>

lemma switch_start:
  assumes "\<not> run_car st" "\<not> color_change st" "sw_first i = HIGH"
  shows "run_car (switch_handling i st)" "\<not> color_change (switch_handling i st)"
    "run_time (switch_handling i st) = t_start i"
    "update_time (switch_handling i st) = update_time st"
    "base_light (switch_handling i st) = base_light st"
    "trace (switch_handling i st) =
       trace (attachAndWrite st) @
       [Debug 3 (Msg_StartingRun (getSeconds (t_start i))),
        Println 3 (Msg_StartingRun (getSeconds (t_start i)))]"
  using assms
  by (simp_all add: switch_handling_def Let_def debug_trace attachAndWrite_trace)

lemma switch_off:
  assumes "\<not> color_change st" "sw_second i = LOW" "run_car st \<or> sw_first i = LOW"
  shows "\<not> run_car (switch_handling i st)" "\<not> color_change (switch_handling i st)"
    "run_time (switch_handling i st) = 0"
    "update_time (switch_handling i st) = update_time st"
    "base_light (switch_handling i st) = base_light st"
    "trace (switch_handling i st) =
       trace st @
       (if run_car st then [Debug 3 Msg_RunAborted, Println 3 Msg_RunAborted] else []) @
       [Enter_detachAndWrite, Write Servo1 90, Write Servo2 90,
        Detach Servo1, Detach Servo2, DigitalWrite dp_regon LOW]"
  using assms
  by (auto simp add: switch_handling_def Let_def debug_trace detachAndWrite_trace)

lemma switch_keep:
  assumes "run_car st" "sw_second i = HIGH"
  shows "switch_handling i st = st"
  using assms by (simp add: switch_handling_def)

lemma endpoint_stop:
  assumes "run_car st" "sint (light i) < sint (light_threshold st)"
  shows "\<not> run_car (endpoint_check i st)" "color_change (endpoint_check i st)"
    "run_time (endpoint_check i st) = 0"
    "base_light (endpoint_check i st) = base_light st"
    "trace (endpoint_check i st) =
       trace st @
       [Enter_detachAndWrite, Write Servo1 90, Write Servo2 90,
        Detach Servo1, Detach Servo2, DigitalWrite dp_regon LOW,
        Debug 3 (Msg_EndingRun (getSeconds (t_end i)) (getSeconds (t_end i - run_time st))),
        Println 3 (Msg_EndingRun (getSeconds (t_end i)) (getSeconds (t_end i - run_time st)))]"
  using assms
  by (simp_all add: endpoint_check_def Let_def debug_trace detachAndWrite_trace)

lemma endpoint_pass:
  assumes "\<not> run_car st \<or> \<not> sint (light i) < sint (light_threshold st)"
  shows "endpoint_check i st = st"
  using assms by (auto simp add: endpoint_check_def)

lemmas loop_unfold = loop_def switch_handling_def light_report_def endpoint_check_def
  attachAndWrite_def detachAndWrite_def debug_def emit_def Let_def light_threshold_def

lemmas concrete_inputs = cycle_at_def booted_fields float_to_int_def vdrop_frac_def
  debug_level_def update_rate_def

lemma run_cycles_append: "run_cycles (xs @ ys) st = run_cycles ys (run_cycles xs st)"
  by (induction xs arbitrary: st) simp_all

section \<open>The latched stop\<close>

lemma loop_latched:
  "color_change st \<Longrightarrow>
     color_change (loop i st) \<and> engage_count (trace (loop i st)) = engage_count (trace st)"
  by (simp add: loop_unfold engage_count_def)

text \<open>
  Claim C1. Once the endpoint flag is set (the state is Stopped), no sequence of further
  passes of the control loop, whatever the switch and the light read, calls
  \<open>attachAndWrite\<close> again, and the state is Stopped after every one of them.
\<close>

theorem latching:
  "color_change st \<Longrightarrow>
     engage_count (trace (run_cycles ins st)) = engage_count (trace st) \<and>
     vstate (run_cycles ins st) = Stopped \<and>
     (\<forall>st' \<in> set (trajectory ins st). vstate st' = Stopped)"
proof (induction ins arbitrary: st)
  case Nil
  then show ?case by (simp add: vstate_def)
next
  case (Cons i ins)
  from Cons.prems have "color_change (loop i st)"
    and "engage_count (trace (loop i st)) = engage_count (trace st)"
    using loop_latched by blast+
  with Cons.IH [of "loop i st"] show ?case by (simp add: vstate_def)
qed

theorem latching_witness:
  "color_change (loop (cycle_at HIGH 750 1000) (booted 1000)) \<and>
   engage_count (trace (run_cycles [cycle_at LOW 1000 2000, cycle_at HIGH 1000 3000]
                         (loop (cycle_at HIGH 750 1000) (booted 1000))))
     = engage_count (trace (loop (cycle_at HIGH 750 1000) (booted 1000))) \<and>
   vstate (run_cycles [cycle_at LOW 1000 2000, cycle_at HIGH 1000 3000]
             (loop (cycle_at HIGH 750 1000) (booted 1000))) = Stopped"
proof -
  have h: "color_change (loop (cycle_at HIGH 750 1000) (booted 1000))"
    by (simp add: loop_unfold concrete_inputs)
  from h latching [OF h, of "[cycle_at LOW 1000 2000, cycle_at HIGH 1000 3000]"]
  show ?thesis by blast
qed

lemma loop_quiet:
  "color_change st \<Longrightarrow> \<not> run_car st \<Longrightarrow>
     color_change (loop i st) \<and> \<not> run_car (loop i st) \<and>
     actuation (trace (loop i st)) = actuation (trace st)"
  by (simp add: loop_unfold actuation_def)

lemma run_cycles_quiet:
  "color_change st \<Longrightarrow> \<not> run_car st \<Longrightarrow>
     color_change (run_cycles ins st) \<and> \<not> run_car (run_cycles ins st) \<and>
     actuation (trace (run_cycles ins st)) = actuation (trace st)"
proof (induction ins arbitrary: st)
  case Nil
  then show ?case by simp
next
  case (Cons i ins)
  from loop_quiet [OF Cons.prems, of i] Cons.IH [of "loop i st"]
  show ?case by simp
qed

text \<open>The two flags are never set together.\<close>

lemma loop_flags_inv:
  "\<not> (run_car st \<and> color_change st) \<Longrightarrow>
     \<not> (run_car (loop i st) \<and> color_change (loop i st))"
  by (auto simp add: loop_unfold)

lemma run_cycles_flags_inv:
  "\<not> (run_car st \<and> color_change st) \<Longrightarrow>
     \<not> (run_car (run_cycles ins st) \<and> color_change (run_cycles ins st))"
proof (induction ins arbitrary: st)
  case Nil
  then show ?case by simp
next
  case (Cons i ins)
  from Cons.IH [OF loop_flags_inv [OF Cons.prems, of i]] show ?case by simp
qed

text \<open>
  Claim C10. In every execution from reset, once the control loop has reached Stopped,
  no further pass makes any actuation: over every sequence of further inputs the trace
  gains no call of \<open>attachAndWrite\<close> or \<open>detachAndWrite\<close>, no pin write and no servo
  call, and the state stays Stopped.
\<close>

theorem stopped_quiescence:
  assumes "vstate (run_cycles pre (sketch_setup inp power_on)) = Stopped"
  shows "actuation (trace (run_cycles (pre @ post) (sketch_setup inp power_on)))
           = actuation (trace (run_cycles pre (sketch_setup inp power_on))) \<and>
         vstate (run_cycles (pre @ post) (sketch_setup inp power_on)) = Stopped"
proof -
  let ?s = "run_cycles pre (sketch_setup inp power_on)"
  have "\<not> (run_car (sketch_setup inp power_on) \<and> color_change (sketch_setup inp power_on))"
    by (simp add: power_on_def)
  then have "\<not> (run_car ?s \<and> color_change ?s)"
    by (rule run_cycles_flags_inv)
  moreover from assms have "color_change ?s"
    by (simp add: vstate_def split: if_splits)
  ultimately have "color_change ?s" "\<not> run_car ?s" by simp_all
  from run_cycles_quiet [OF this, of post] show ?thesis
    by (simp add: run_cycles_append vstate_def)
qed

theorem stopped_quiescence_witness:
  "vstate (run_cycles [cycle_at HIGH 750 1000]
             (sketch_setup \<lparr>photo = (\<lambda>_. 1000), raw_bat = 600, raw_pem = 600\<rparr> power_on))
     = Stopped \<and>
   actuation (trace (run_cycles ([cycle_at HIGH 750 1000] @
                                  [cycle_at LOW 1000 2000, cycle_at HIGH 1000 3000])
       (sketch_setup \<lparr>photo = (\<lambda>_. 1000), raw_bat = 600, raw_pem = 600\<rparr> power_on)))
     = actuation (trace (run_cycles [cycle_at HIGH 750 1000]
       (sketch_setup \<lparr>photo = (\<lambda>_. 1000), raw_bat = 600, raw_pem = 600\<rparr> power_on)))"
proof -
  have h: "vstate (run_cycles [cycle_at HIGH 750 1000]
             (sketch_setup \<lparr>photo = (\<lambda>_. 1000), raw_bat = 600, raw_pem = 600\<rparr> power_on))
           = Stopped"
    unfolding booted_def [symmetric]
    by (simp add: vstate_def loop_unfold concrete_inputs)
  from h stopped_quiescence [OF h, of "[cycle_at LOW 1000 2000, cycle_at HIGH 1000 3000]"]
  show ?thesis by blast
qed

section \<open>The drive procedures\<close>

text \<open>
  Claim C9. Two calls of \<open>attachAndWrite\<close> in a row, starting with both drive servos
  detached, attach each drive servo exactly once: the second call attaches nothing.
\<close>

theorem engage_idempotent:
  assumes "\<not> servo1_attached st" and "\<not> servo2_attached st"
  shows "attach_count Servo1 (new_events (attachAndWrite \<circ> attachAndWrite) st) = 1 \<and>
         attach_count Servo2 (new_events (attachAndWrite \<circ> attachAndWrite) st) = 1 \<and>
         attach_count Servo1 (new_events attachAndWrite (attachAndWrite st)) = 0 \<and>
         attach_count Servo2 (new_events attachAndWrite (attachAndWrite st)) = 0"
  using assms by (simp add: new_events_def attach_count_def attachAndWrite_trace)

theorem engage_idempotent_witness:
  "\<not> servo1_attached power_on \<and> \<not> servo2_attached power_on \<and>
   attach_count Servo1 (new_events (attachAndWrite \<circ> attachAndWrite) power_on) = 1 \<and>
   attach_count Servo2 (new_events (attachAndWrite \<circ> attachAndWrite) power_on) = 1 \<and>
   attach_count Servo1 (new_events attachAndWrite (attachAndWrite power_on)) = 0 \<and>
   attach_count Servo2 (new_events attachAndWrite (attachAndWrite power_on)) = 0"
proof -
  have h: "\<not> servo1_attached power_on" "\<not> servo2_attached power_on"
    by (simp_all add: power_on_def)
  from h engage_idempotent [OF h] show ?thesis by blast
qed

section \<open>Single passes of the control loop\<close>

lemma vstate_simps:
  "vstate st = Idle \<longleftrightarrow> \<not> color_change st \<and> \<not> run_car st"
  "vstate st = Running \<longleftrightarrow> \<not> color_change st \<and> run_car st"
  "vstate st = Stopped \<longleftrightarrow> color_change st"
  by (simp_all add: vstate_def)

lemma loop_switch_off:
  assumes "\<not> color_change st" and "sw_second i = LOW" and "run_car st \<or> sw_first i = LOW"
  shows "vstate (loop i st) = Idle"
    "base_light (loop i st) = base_light st"
    "run_time (loop i st) = 0"
    "drive_calls (new_events (loop i) st) = [Enter_detachAndWrite]"
    "count_list (new_events (loop i) st) (Debug 3 Msg_RunAborted) = (if run_car st then 1 else 0)"
    "count_list (new_events (loop i) st) (Println 3 Msg_RunAborted) = (if run_car st then 1 else 0)"
proof -
  note sw = switch_off [OF assms]
  have ep: "endpoint_check i (light_report i (switch_handling i st))
              = light_report i (switch_handling i st)"
    by (rule endpoint_pass) (simp add: sw)
  show "vstate (loop i st) = Idle"
    "base_light (loop i st) = base_light st"
    "run_time (loop i st) = 0"
    "drive_calls (new_events (loop i) st) = [Enter_detachAndWrite]"
    "count_list (new_events (loop i) st) (Debug 3 Msg_RunAborted) = (if run_car st then 1 else 0)"
    "count_list (new_events (loop i) st) (Println 3 Msg_RunAborted) = (if run_car st then 1 else 0)"
    by (simp_all add: loop_def ep sw vstate_def new_events_def drive_calls_def light_report_trace)
qed

lemma loop_start:
  assumes "vstate st = Idle" and "sw_first i = HIGH"
    and "\<not> sint (light i) < sint (light_threshold st)"
  shows "vstate (loop i st) = Running"
    "base_light (loop i st) = base_light st"
    "run_time (loop i st) = t_start i"
    "drive_calls (new_events (loop i) st) = [Enter_attachAndWrite]"
    "drive_calls (trace (loop i st)) = drive_calls (trace st) @ [Enter_attachAndWrite]"
proof -
  from assms(1) have idle: "\<not> run_car st" "\<not> color_change st"
    by (simp_all add: vstate_simps)
  note sw = switch_start [OF idle assms(2)]
  have ep: "endpoint_check i (light_report i (switch_handling i st))
              = light_report i (switch_handling i st)"
    using assms(3) by (intro endpoint_pass) (simp add: sw light_threshold_def)
  show "vstate (loop i st) = Running"
    "base_light (loop i st) = base_light st"
    "run_time (loop i st) = t_start i"
    "drive_calls (new_events (loop i) st) = [Enter_attachAndWrite]"
    "drive_calls (trace (loop i st)) = drive_calls (trace st) @ [Enter_attachAndWrite]"
    by (simp_all add: loop_def ep sw vstate_def new_events_def drive_calls_def light_report_trace
        attachAndWrite_trace)
qed

lemma loop_keep:
  assumes "vstate st = Running" and "sw_second i = HIGH"
    and "\<not> sint (light i) < sint (light_threshold st)"
  shows "vstate (loop i st) = Running"
    "base_light (loop i st) = base_light st"
    "run_time (loop i st) = run_time st"
    "drive_calls (new_events (loop i) st) = []"
    "drive_calls (trace (loop i st)) = drive_calls (trace st)"
proof -
  from assms(1) have run: "run_car st" "\<not> color_change st"
    by (simp_all add: vstate_simps)
  note sw = switch_keep [OF run(1) assms(2)]
  have ep: "endpoint_check i (light_report i st) = light_report i st"
    using assms(3) by (intro endpoint_pass) simp
  show "vstate (loop i st) = Running"
    "base_light (loop i st) = base_light st"
    "run_time (loop i st) = run_time st"
    "drive_calls (new_events (loop i) st) = []"
    "drive_calls (trace (loop i st)) = drive_calls (trace st)"
    using run
    by (simp_all add: loop_def ep sw vstate_def new_events_def drive_calls_def light_report_trace)
qed

lemma loop_endpoint:
  assumes "vstate st = Running" and "sw_second i = HIGH"
    and "sint (light i) < sint (light_threshold st)"
  shows "vstate (loop i st) = Stopped"
    "run_time (loop i st) = 0"
    "drive_calls (new_events (loop i) st) = [Enter_detachAndWrite]"
    "drive_calls (trace (loop i st)) = drive_calls (trace st) @ [Enter_detachAndWrite]"
    "filter (\<lambda>e. \<exists>a b. e = Debug 3 (Msg_EndingRun a b) \<or> e = Println 3 (Msg_EndingRun a b))
       (new_events (loop i) st)
     = [Debug 3 (Msg_EndingRun (getSeconds (t_end i)) (getSeconds (t_end i - run_time st))),
        Println 3 (Msg_EndingRun (getSeconds (t_end i)) (getSeconds (t_end i - run_time st)))]"
proof -
  from assms(1) have run: "run_car st" "\<not> color_change st"
    by (simp_all add: vstate_simps)
  note sw = switch_keep [OF run(1) assms(2)]
  have "run_car (light_report i st)"
    and "sint (light i) < sint (light_threshold (light_report i st))"
    using run assms(3) by simp_all
  note ep = endpoint_stop [OF this]
  show "vstate (loop i st) = Stopped"
    "run_time (loop i st) = 0"
    "drive_calls (new_events (loop i) st) = [Enter_detachAndWrite]"
    "drive_calls (trace (loop i st)) = drive_calls (trace st) @ [Enter_detachAndWrite]"
    "filter (\<lambda>e. \<exists>a b. e = Debug 3 (Msg_EndingRun a b) \<or> e = Println 3 (Msg_EndingRun a b))
       (new_events (loop i) st)
     = [Debug 3 (Msg_EndingRun (getSeconds (t_end i)) (getSeconds (t_end i - run_time st))),
        Println 3 (Msg_EndingRun (getSeconds (t_end i)) (getSeconds (t_end i - run_time st)))]"
    by (simp_all add: loop_def ep sw vstate_def new_events_def drive_calls_def light_report_trace)
qed

lemma loop_start_stop:
  assumes "vstate st = Idle" and "sw_first i = HIGH"
    and "sint (light i) < sint (light_threshold st)"
  shows "vstate (switch_handling i st) = Running"
    "drive_calls (new_events (switch_handling i) st) = [Enter_attachAndWrite]"
    "vstate (loop i st) = Stopped"
    "drive_calls (new_events (loop i) st) = [Enter_attachAndWrite, Enter_detachAndWrite]"
proof -
  from assms(1) have idle: "\<not> run_car st" "\<not> color_change st"
    by (simp_all add: vstate_simps)
  note sw = switch_start [OF idle assms(2)]
  have run: "run_car (light_report i (switch_handling i st))"
    and thr: "sint (light i) < sint (light_threshold (light_report i (switch_handling i st)))"
    using assms(3) by (simp_all add: sw light_threshold_def)
  note ep = endpoint_stop [OF run thr]
  show "vstate (switch_handling i st) = Running"
    "drive_calls (new_events (switch_handling i) st) = [Enter_attachAndWrite]"
    "vstate (loop i st) = Stopped"
    "drive_calls (new_events (loop i) st) = [Enter_attachAndWrite, Enter_detachAndWrite]"
    by (simp_all add: loop_def ep sw vstate_def new_events_def drive_calls_def light_report_trace
        attachAndWrite_trace)
qed

lemma threshold_1000: "base_light st = 1000 \<Longrightarrow> light_threshold st = 800"
  by (simp add: light_threshold_def float_to_int_def vdrop_frac_def)

section \<open>Abort and endpoint\<close>

text \<open>
  Claim C4. In a pass where the switch reads off and the state is not Stopped, the state
  becomes Idle, \<open>detachAndWrite\<close> is called exactly once (and \<open>attachAndWrite\<close> not at
  all), the run timer is reset to 0, and the message "Run Aborted" is handed to the sink
  and printed exactly once when the state was Running, and not at all when it was Idle.
  (When the state is Running only the second read of the switch takes place.)
\<close>

theorem abort_semantics:
  assumes "\<not> color_change st" and "sw_second i = LOW" and "run_car st \<or> sw_first i = LOW"
  shows "vstate (loop i st) = Idle \<and>
         drive_calls (new_events (loop i) st) = [Enter_detachAndWrite] \<and>
         count_list (new_events (loop i) st) (Debug 3 Msg_RunAborted)
           = (if run_car st then 1 else 0) \<and>
         count_list (new_events (loop i) st) (Println 3 Msg_RunAborted)
           = (if run_car st then 1 else 0) \<and>
         run_time (loop i st) = 0"
  using loop_switch_off [OF assms] by simp

theorem abort_semantics_witness:
  "\<not> color_change (loop (cycle_at HIGH 1000 1000) (booted 1000)) \<and>
   run_car (loop (cycle_at HIGH 1000 1000) (booted 1000)) \<and>
   sw_second (cycle_at LOW 1000 2000) = LOW \<and>
   vstate (loop (cycle_at LOW 1000 2000) (loop (cycle_at HIGH 1000 1000) (booted 1000))) = Idle \<and>
   drive_calls (new_events (loop (cycle_at LOW 1000 2000))
                  (loop (cycle_at HIGH 1000 1000) (booted 1000))) = [Enter_detachAndWrite] \<and>
   count_list (new_events (loop (cycle_at LOW 1000 2000))
                  (loop (cycle_at HIGH 1000 1000) (booted 1000))) (Debug 3 Msg_RunAborted) = 1 \<and>
   count_list (new_events (loop (cycle_at LOW 1000 2000))
                  (loop (cycle_at HIGH 1000 1000) (booted 1000))) (Println 3 Msg_RunAborted) = 1 \<and>
   run_time (loop (cycle_at LOW 1000 2000) (loop (cycle_at HIGH 1000 1000) (booted 1000))) = 0"
proof -
  let ?st = "loop (cycle_at HIGH 1000 1000) (booted 1000)"
  have h: "\<not> color_change ?st" "run_car ?st"
    by (simp_all add: loop_unfold concrete_inputs)
  have sw: "sw_second (cycle_at LOW 1000 2000) = LOW"
    by (simp add: cycle_at_def)
  from abort_semantics [OF h(1) sw disjI1 [OF h(2)]] h sw show ?thesis
    by simp
qed

text \<open>
  Claim C5 as stated fails on the sketch: when the switch turns on while Idle in a pass
  whose light reading is already below the threshold, that same pass calls
  \<open>attachAndWrite\<close> and then \<open>detachAndWrite\<close> and ends Stopped; the next pass
  makes no drive call.
\<close>

theorem next_cycle_stop_counterexample:
  "vstate (booted 1000) = Idle \<and>
   sw_first (cycle_at HIGH 750 1000) = HIGH \<and>
   sint (light (cycle_at HIGH 750 1000)) < sint (light_threshold (booted 1000)) \<and>
   drive_calls (new_events (loop (cycle_at HIGH 750 1000)) (booted 1000))
     = [Enter_attachAndWrite, Enter_detachAndWrite] \<and>
   vstate (loop (cycle_at HIGH 750 1000) (booted 1000)) = Stopped \<and>
   drive_calls (new_events (loop (cycle_at HIGH 750 2000))
                  (loop (cycle_at HIGH 750 1000) (booted 1000))) = []"
  by (simp add: loop_unfold concrete_inputs new_events_def drive_calls_def vstate_def)

text \<open>
  Claim C5, amended. When the switch turns on while Idle in a pass whose light reading is
  already below the threshold, the switch handling of that pass engages the drive (the
  state is Running after it) and the endpoint check of the same pass, evaluated after it,
  disengages the drive: the pass calls \<open>attachAndWrite\<close>, then \<open>detachAndWrite\<close>, and
  ends Stopped.
\<close>

theorem same_cycle_stop:
  assumes "vstate st = Idle" and "sw_first i = HIGH"
    and "sint (light i) < sint (light_threshold st)"
  shows "vstate (switch_handling i st) = Running \<and>
         drive_calls (new_events (switch_handling i) st) = [Enter_attachAndWrite] \<and>
         vstate (loop i st) = Stopped \<and>
         drive_calls (new_events (loop i) st) = [Enter_attachAndWrite, Enter_detachAndWrite]"
  using loop_start_stop [OF assms] by simp

theorem same_cycle_stop_witness:
  "vstate (booted 1000) = Idle \<and>
   sw_first (cycle_at HIGH 750 1000) = HIGH \<and>
   sint (light (cycle_at HIGH 750 1000)) < sint (light_threshold (booted 1000)) \<and>
   vstate (switch_handling (cycle_at HIGH 750 1000) (booted 1000)) = Running \<and>
   drive_calls (new_events (switch_handling (cycle_at HIGH 750 1000)) (booted 1000))
     = [Enter_attachAndWrite] \<and>
   vstate (loop (cycle_at HIGH 750 1000) (booted 1000)) = Stopped \<and>
   drive_calls (new_events (loop (cycle_at HIGH 750 1000)) (booted 1000))
     = [Enter_attachAndWrite, Enter_detachAndWrite]"
proof -
  have h: "vstate (booted 1000) = Idle" "sw_first (cycle_at HIGH 750 1000) = HIGH"
    "sint (light (cycle_at HIGH 750 1000)) < sint (light_threshold (booted 1000))"
    by (simp_all add: vstate_def light_threshold_def concrete_inputs)
  from same_cycle_stop [OF h] h show ?thesis by simp
qed

section \<open>The end-to-end example\<close>

text \<open>
  Claim C2 as stated fails on the sketch: on the example stream \<open>detachAndWrite\<close> is
  called twice, the first time in pass 1, where the switch reads off while Idle.
\<close>

theorem example_run_counterexample:
  "base_light (booted 1000) = 1000 \<and> vstate (booted 1000) = Idle \<and>
   drive_calls (new_events (loop (cycle_at LOW 1000 1000)) (booted 1000))
     = [Enter_detachAndWrite] \<and>
   disengage_count (new_events (run_cycles (example_stream 1000 2000 3000 4000)) (booted 1000))
     = 2"
  by (simp add: loop_unfold concrete_inputs new_events_def drive_calls_def vstate_def
      example_stream_def disengage_count_def)

text \<open>
  Claim C2, amended. With baseline 1000 (threshold 800), the control loop started Idle on
  the stream switch = off, on, on, on and light = 1000, 1000, 1000, 750 passes through
  the states Idle, Running, Running, Stopped; \<open>attachAndWrite\<close> is called exactly once,
  in pass 2, and \<open>detachAndWrite\<close> exactly twice: in pass 1 (the switch reads off while
  Idle) and in pass 4 (the endpoint).
\<close>

theorem example_run:
  assumes "base_light st = 1000" and "vstate st = Idle"
  shows "map vstate (trajectory (example_stream t1 t2 t3 t4) st)
           = [Idle, Running, Running, Stopped] \<and>
         calls_per_cycle (example_stream t1 t2 t3 t4) st
           = [[Enter_detachAndWrite], [Enter_attachAndWrite], [], [Enter_detachAndWrite]]"
proof -
  let ?c1 = "cycle_at LOW 1000 t1" and ?c2 = "cycle_at HIGH 1000 t2"
  and ?c3 = "cycle_at HIGH 1000 t3" and ?c4 = "cycle_at HIGH 750 t4"
  let ?s1 = "loop ?c1 st"
  let ?s2 = "loop ?c2 ?s1"
  let ?s3 = "loop ?c3 ?s2"
  from assms(2) have idle: "\<not> color_change st" "\<not> run_car st"
    by (simp_all add: vstate_simps)
  note a1 = loop_switch_off [of st ?c1, OF idle(1)]
  have s1: "vstate ?s1 = Idle" "base_light ?s1 = 1000"
    "drive_calls (new_events (loop ?c1) st) = [Enter_detachAndWrite]"
    using a1 assms(1) by (simp_all add: cycle_at_def)
  have t1: "light_threshold ?s1 = 800" by (rule threshold_1000) (rule s1)
  note a2 = loop_start [of ?s1 ?c2, OF s1(1)]
  have s2: "vstate ?s2 = Running" "base_light ?s2 = 1000"
    "drive_calls (new_events (loop ?c2) ?s1) = [Enter_attachAndWrite]"
    using a2 s1(2) t1 by (simp_all add: cycle_at_def)
  have t2: "light_threshold ?s2 = 800" by (rule threshold_1000) (rule s2)
  note a3 = loop_keep [of ?s2 ?c3, OF s2(1)]
  have s3: "vstate ?s3 = Running" "base_light ?s3 = 1000"
    "drive_calls (new_events (loop ?c3) ?s2) = []"
    using a3 s2(2) t2 by (simp_all add: cycle_at_def)
  have t3: "light_threshold ?s3 = 800" by (rule threshold_1000) (rule s3)
  note a4 = loop_endpoint [of ?s3 ?c4, OF s3(1)]
  have s4: "vstate (loop ?c4 ?s3) = Stopped"
    "drive_calls (new_events (loop ?c4) ?s3) = [Enter_detachAndWrite]"
    using a4 t3 by (simp_all add: cycle_at_def)
  show ?thesis
    by (simp add: example_stream_def s1 s2 s3 s4)
qed

theorem example_run_witness:
  "base_light (booted 1000) = 1000 \<and> vstate (booted 1000) = Idle \<and>
   map vstate (trajectory (example_stream 1000 2000 3000 4000) (booted 1000))
     = [Idle, Running, Running, Stopped] \<and>
   calls_per_cycle (example_stream 1000 2000 3000 4000) (booted 1000)
     = [[Enter_detachAndWrite], [Enter_attachAndWrite], [], [Enter_detachAndWrite]]"
proof -
  have h: "base_light (booted 1000) = 1000" "vstate (booted 1000) = Idle"
    by (simp_all add: vstate_def concrete_inputs)
  from example_run [OF h, of 1000 2000 3000 4000] h show ?thesis by simp
qed

section \<open>Endpoint detection\<close>

lemma light_threshold_base:
  "base_light a = base_light b \<Longrightarrow> light_threshold a = light_threshold b"
  by (simp add: light_threshold_def)

lemma trajectory_append:
  "trajectory (xs @ ys) st = trajectory xs st @ trajectory ys (run_cycles xs st)"
  by (induction xs arbitrary: st) simp_all

lemma loop_endpoint_report:
  assumes "vstate st = Running" and "sw_second i = HIGH"
    and "sint (light i) < sint (light_threshold st)"
  shows "run_reports (new_events (loop i) st)
     = [Debug 3 (Msg_EndingRun (getSeconds (t_end i)) (getSeconds (t_end i - run_time st))),
        Println 3 (Msg_EndingRun (getSeconds (t_end i)) (getSeconds (t_end i - run_time st)))]"
proof -
  from assms(1) have run: "run_car st" "\<not> color_change st"
    by (simp_all add: vstate_simps)
  note sw = switch_keep [OF run(1) assms(2)]
  have "run_car (light_report i st)"
    and "sint (light i) < sint (light_threshold (light_report i st))"
    using run assms(3) by simp_all
  note ep = endpoint_stop [OF this]
  show ?thesis
    by (simp add: loop_def ep sw new_events_def run_reports_def light_report_trace)
qed

lemma run_keep:
  assumes "vstate st = Running"
    and "\<forall>m \<in> set mid. sw_second m = HIGH \<and> \<not> sint (light m) < sint (light_threshold st)"
  shows "vstate (run_cycles mid st) = Running \<and>
         base_light (run_cycles mid st) = base_light st \<and>
         run_time (run_cycles mid st) = run_time st \<and>
         drive_calls (trace (run_cycles mid st)) = drive_calls (trace st) \<and>
         map vstate (trajectory mid st) = replicate (length mid) Running"
  using assms
proof (induction mid arbitrary: st)
  case Nil
  then show ?case by simp
next
  case (Cons m mid)
  from Cons.prems have m: "sw_second m = HIGH" "\<not> sint (light m) < sint (light_threshold st)"
    by simp_all
  note k = loop_keep [OF Cons.prems(1) m]
  have thr: "light_threshold (loop m st) = light_threshold st"
    by (rule light_threshold_base) (rule k)
  have "\<forall>x \<in> set mid. sw_second x = HIGH \<and> \<not> sint (light x) < sint (light_threshold (loop m st))"
    using Cons.prems(2) thr by simp
  from Cons.IH [OF k(1) this] k show ?case by simp
qed

text \<open>
  Claim C3 as stated fails on the sketch: the light reading is compared with
  \<open>int(vdrop_frac*base_light)\<close>, the product truncated to an integer. With baseline 1001
  the product is 800.8 and the threshold 800: a running car whose light reading goes from
  801 (not below 0.8 times the baseline) to 800 (below it) keeps running, and
  \<open>detachAndWrite\<close> is not called.
\<close>

theorem truncated_threshold_counterexample:
  "vstate (loop (cycle_at HIGH 1001 1000) (booted 1001)) = Running \<and>
   base_light (loop (cycle_at HIGH 1001 1000) (booted 1001)) = 1001 \<and>
   sw_second (cycle_at HIGH 801 2000) = HIGH \<and> sw_second (cycle_at HIGH 800 3000) = HIGH \<and>
   vdrop_frac * real_of_int (sint (1001 :: c_int))
     \<le> real_of_int (sint (light (cycle_at HIGH 801 2000))) \<and>
   real_of_int (sint (light (cycle_at HIGH 800 3000)))
     < vdrop_frac * real_of_int (sint (1001 :: c_int)) \<and>
   vstate (run_cycles [cycle_at HIGH 801 2000, cycle_at HIGH 800 3000]
             (loop (cycle_at HIGH 1001 1000) (booted 1001))) = Running \<and>
   disengage_count (new_events (run_cycles [cycle_at HIGH 801 2000, cycle_at HIGH 800 3000])
                      (loop (cycle_at HIGH 1001 1000) (booted 1001))) = 0"
  by (simp add: loop_unfold concrete_inputs new_events_def vstate_def disengage_count_def)

text \<open>
  Claim C3, amended. Take a run: a pass that starts it from Idle (switch on), any number
  of passes that keep it (switch on), all with the light reading not below the threshold
  \<open>int(vdrop_frac*base_light)\<close>, and then a pass with the switch on whose light reading
  is below that threshold. The states are Running until the last pass and Stopped after
  it; over the whole run \<open>detachAndWrite\<close> is called exactly once, after the one call of
  \<open>attachAndWrite\<close>; the last pass reports as run time the seconds of its own timestamp
  minus the timestamp taken when the run started (in 32-bit arithmetic), and leaves the
  run timer at 0.
\<close>

theorem endpoint_detection:
  assumes "vstate st = Idle"
    and "sw_first s = HIGH" and "\<not> sint (light s) < sint (light_threshold st)"
    and "\<forall>m \<in> set mid. sw_second m = HIGH \<and> \<not> sint (light m) < sint (light_threshold st)"
    and "sw_second e = HIGH" and "sint (light e) < sint (light_threshold st)"
  shows "map vstate (trajectory (s # mid @ [e]) st)
           = replicate (Suc (length mid)) Running @ [Stopped] \<and>
         drive_calls (trace (run_cycles (s # mid @ [e]) st))
           = drive_calls (trace st) @ [Enter_attachAndWrite, Enter_detachAndWrite] \<and>
         run_reports (new_events (loop e) (run_cycles (s # mid) st))
           = [Debug 3 (Msg_EndingRun (getSeconds (t_end e)) (getSeconds (t_end e - t_start s))),
              Println 3 (Msg_EndingRun (getSeconds (t_end e)) (getSeconds (t_end e - t_start s)))] \<and>
         run_time (run_cycles (s # mid @ [e]) st) = 0"
proof -
  let ?s1 = "loop s st"
  let ?s2 = "run_cycles mid ?s1"
  note a = loop_start [OF assms(1,2,3)]
  have thr1: "light_threshold ?s1 = light_threshold st"
    by (rule light_threshold_base) (rule a)
  have "\<forall>m \<in> set mid. sw_second m = HIGH \<and> \<not> sint (light m) < sint (light_threshold ?s1)"
    using assms(4) thr1 by simp
  from run_keep [OF a(1) this]
  have b: "vstate ?s2 = Running" "base_light ?s2 = base_light ?s1"
    "run_time ?s2 = run_time ?s1" "drive_calls (trace ?s2) = drive_calls (trace ?s1)"
    "map vstate (trajectory mid ?s1) = replicate (length mid) Running"
    by simp_all
  have thr2: "light_threshold ?s2 = light_threshold st"
    using light_threshold_base [OF b(2)] thr1 by simp
  have below: "sint (light e) < sint (light_threshold ?s2)"
    using assms(6) thr2 by simp
  note c = loop_endpoint [OF b(1) assms(5) below]
  note r = loop_endpoint_report [OF b(1) assms(5) below]
  show ?thesis
    using a b c r
    by (simp add: run_cycles_append trajectory_append)
qed

theorem endpoint_detection_witness:
  "vstate (booted 1000) = Idle \<and>
   map vstate (trajectory (cycle_at HIGH 1000 1000 # [cycle_at HIGH 900 2000, cycle_at HIGH 800 3000]
                            @ [cycle_at HIGH 799 4500]) (booted 1000))
     = replicate (Suc (length [cycle_at HIGH 900 2000, cycle_at HIGH 800 3000])) Running @ [Stopped] \<and>
   run_reports (new_events (loop (cycle_at HIGH 799 4500))
        (run_cycles (cycle_at HIGH 1000 1000 # [cycle_at HIGH 900 2000, cycle_at HIGH 800 3000])
           (booted 1000)))
     = [Debug 3 (Msg_EndingRun (getSeconds 4500) (getSeconds 3500)),
        Println 3 (Msg_EndingRun (getSeconds 4500) (getSeconds 3500))]"
proof -
  have h: "vstate (booted 1000) = Idle" "sw_first (cycle_at HIGH 1000 1000) = HIGH"
    "\<not> sint (light (cycle_at HIGH 1000 1000)) < sint (light_threshold (booted 1000))"
    "\<forall>m \<in> set [cycle_at HIGH 900 2000, cycle_at HIGH 800 3000].
        sw_second m = HIGH \<and> \<not> sint (light m) < sint (light_threshold (booted 1000))"
    "sw_second (cycle_at HIGH 799 4500) = HIGH"
    "sint (light (cycle_at HIGH 799 4500)) < sint (light_threshold (booted 1000))"
    by (simp_all add: vstate_def light_threshold_def concrete_inputs)
  from endpoint_detection [OF h] h(1) show ?thesis
    by (simp add: cycle_at_def)
qed

section \<open>The voltage check\<close>

lemmas pin_defs = dp_spect_def dp_batok_def dp_pemok_def dp_swton_def dp_regon_def
  dp_serv1_def dp_serv2_def dp_servs_def

lemma indicator_pins_distinct [simp]:
  "dp_batok \<noteq> dp_pemok" "dp_pemok \<noteq> dp_batok"
  by (simp_all add: pin_defs)

lemma flash_trace:
  "trace (flash k st) =
     trace st @ concat (replicate k
       [DigitalWrite dp_batok LOW, DigitalWrite dp_pemok LOW, Delay 150,
        DigitalWrite dp_batok HIGH, DigitalWrite dp_pemok HIGH, Delay 350])"
  by (induction k arbitrary: st) (simp_all add: replicate_app_Cons_same)

lemma pin_level_append:
  "pin_level p (xs @ ys) =
     foldl (\<lambda>l e. case e of DigitalWrite q v \<Rightarrow> (if q = p then v else l) | _ \<Rightarrow> l)
       (pin_level p xs) ys"
  by (simp add: pin_level_def)

lemma ready_signal_levels:
  "pin_level dp_batok (trace (ready_signal st)) = HIGH"
  "pin_level dp_pemok (trace (ready_signal st)) = HIGH"
  by (simp_all add: ready_signal_def flash_trace pin_level_append pin_defs numeral_eq_Suc)

lemma check_voltages_trace:
  "trace (check_voltages vbat vpem st) =
     trace st @ [Debug 4 (Msg_BatteryVoltage vbat), Debug 4 (Msg_PemVoltage vpem)] @
     (if vbat < vbat_ok then [DigitalWrite dp_batok LOW, Debug 2 (Msg_LowBattery vbat)] else []) @
     (if vpem < vpem_ok then [DigitalWrite dp_pemok LOW, Debug 2 (Msg_LowFuelCell vpem)] else [])"
  by (simp add: check_voltages_def Let_def debug_trace)

lemma level_not_LOW: "l \<noteq> LOW \<longleftrightarrow> l = HIGH"
  by (cases l) simp_all

text \<open>
  Claim C7. The check of a rail fails exactly when the converted voltage is strictly below
  its threshold, 5.5 V for the battery and 7 V for the fuel cell: then, and only then, the
  indicator pin is written LOW and the low-voltage message is handed to the sink (at level
  2; the sink of this build, set to level 3, does not print it). A voltage equal to the
  threshold passes: at 5.5 V and 7 V the check adds nothing but the two voltage messages.
  For every pair of raw samples, the indicator of a rail is LOW at the end of
  \<open>setup()\<close> exactly when its converted sample is below the threshold.
\<close>

theorem rail_check:
  "(DigitalWrite dp_batok LOW \<in> set (new_events (check_voltages vbat vpem) st) \<longleftrightarrow> vbat < 5.5) \<and>
   (Debug 2 (Msg_LowBattery vbat) \<in> set (new_events (check_voltages vbat vpem) st) \<longleftrightarrow> vbat < 5.5) \<and>
   (DigitalWrite dp_pemok LOW \<in> set (new_events (check_voltages vbat vpem) st) \<longleftrightarrow> vpem < 7) \<and>
   (Debug 2 (Msg_LowFuelCell vpem) \<in> set (new_events (check_voltages vbat vpem) st) \<longleftrightarrow> vpem < 7) \<and>
   new_events (check_voltages 5.5 7) st = [Debug 4 (Msg_BatteryVoltage 5.5), Debug 4 (Msg_PemVoltage 7)] \<and>
   (pin_level dp_batok (trace (sketch_setup inp st)) = LOW \<longleftrightarrow> analogToV (raw_bat inp) < 5.5) \<and>
   (pin_level dp_pemok (trace (sketch_setup inp st)) = LOW \<longleftrightarrow> analogToV (raw_pem inp) < 7)"
proof -
  have a: "(DigitalWrite dp_batok LOW \<in> set (new_events (check_voltages vbat vpem) st) \<longleftrightarrow> vbat < 5.5)"
    "(Debug 2 (Msg_LowBattery vbat) \<in> set (new_events (check_voltages vbat vpem) st) \<longleftrightarrow> vbat < 5.5)"
    "(DigitalWrite dp_pemok LOW \<in> set (new_events (check_voltages vbat vpem) st) \<longleftrightarrow> vpem < 7)"
    "(Debug 2 (Msg_LowFuelCell vpem) \<in> set (new_events (check_voltages vbat vpem) st) \<longleftrightarrow> vpem < 7)"
    by (simp_all add: new_events_def check_voltages_trace vbat_ok_def vpem_ok_def pin_defs)
  have b: "new_events (check_voltages 5.5 7) st
             = [Debug 4 (Msg_BatteryVoltage 5.5), Debug 4 (Msg_PemVoltage 7)]"
    by (simp add: new_events_def check_voltages_trace vbat_ok_def vpem_ok_def)
  have c: "(pin_level dp_batok (trace (sketch_setup inp st)) = LOW \<longleftrightarrow> analogToV (raw_bat inp) < 5.5)"
    "(pin_level dp_pemok (trace (sketch_setup inp st)) = LOW \<longleftrightarrow> analogToV (raw_pem inp) < 7)"
    by (simp_all add: sketch_setup_def read_voltages_def Let_def check_voltages_trace debug_trace
        pin_level_append ready_signal_levels vbat_ok_def vpem_ok_def)
  from a b c show ?thesis by blast
qed

theorem rail_check_witness:
  "pin_level dp_batok
     (trace (sketch_setup \<lparr>photo = (\<lambda>_. 1000), raw_bat = 359, raw_pem = 458\<rparr> power_on)) = LOW \<and>
   pin_level dp_pemok
     (trace (sketch_setup \<lparr>photo = (\<lambda>_. 1000), raw_bat = 359, raw_pem = 458\<rparr> power_on)) = HIGH"
  using rail_check [where inp = "\<lparr>photo = (\<lambda>_. 1000), raw_bat = 359, raw_pem = 458\<rparr>"
      and st = power_on and vbat = 5 and vpem = 8]
  by (simp add: analogToV_def div_const_def level_not_LOW)

section \<open>The voltages do not interfere with the run\<close>

text \<open>A pass of the loop neither reads the trace nor removes from it.\<close>

lemma switch_handling_appends:
  "switch_handling i (st\<lparr>trace := tr\<rparr>)
     = (switch_handling i st)\<lparr>trace := tr @ new_events (switch_handling i) st\<rparr>"
  "trace (switch_handling i st) = trace st @ new_events (switch_handling i) st"
  by (simp_all add: switch_handling_def attachAndWrite_def detachAndWrite_def debug_def emit_def
      Let_def new_events_def)

lemma light_report_appends:
  "light_report i (st\<lparr>trace := tr\<rparr>)
     = (light_report i st)\<lparr>trace := tr @ new_events (light_report i) st\<rparr>"
  "trace (light_report i st) = trace st @ new_events (light_report i) st"
  by (simp_all add: light_report_def debug_def emit_def Let_def new_events_def)

lemma endpoint_check_appends:
  "endpoint_check i (st\<lparr>trace := tr\<rparr>)
     = (endpoint_check i st)\<lparr>trace := tr @ new_events (endpoint_check i) st\<rparr>"
  "trace (endpoint_check i st) = trace st @ new_events (endpoint_check i) st"
  by (simp_all add: endpoint_check_def detachAndWrite_def debug_def emit_def
      Let_def new_events_def)

lemma loop_new_events:
  "new_events (loop i) st =
     new_events (switch_handling i) st @
     new_events (light_report i) (switch_handling i st) @
     new_events (endpoint_check i) (light_report i (switch_handling i st))"
proof -
  have "trace (loop i st) = trace st @ new_events (switch_handling i) st @
     new_events (light_report i) (switch_handling i st) @
     new_events (endpoint_check i) (light_report i (switch_handling i st))"
    unfolding loop_def
    by (subst endpoint_check_appends(2), subst light_report_appends(2),
        subst switch_handling_appends(2)) simp
  then show ?thesis by (simp add: new_events_def)
qed

lemma loop_appends:
  "loop i (st\<lparr>trace := tr\<rparr>) = (loop i st)\<lparr>trace := tr @ new_events (loop i) st\<rparr>"
  "trace (loop i st) = trace st @ new_events (loop i) st"
proof -
  show "loop i (st\<lparr>trace := tr\<rparr>) = (loop i st)\<lparr>trace := tr @ new_events (loop i) st\<rparr>"
    unfolding loop_new_events
    by (simp add: loop_def switch_handling_appends(1) light_report_appends(1)
        endpoint_check_appends(1))
  show "trace (loop i st) = trace st @ new_events (loop i) st"
    unfolding loop_new_events unfolding loop_def
    by (subst endpoint_check_appends(2), subst light_report_appends(2),
        subst switch_handling_appends(2)) simp
qed

lemma run_cycles_appends:
  "run_cycles ins (st\<lparr>trace := tr\<rparr>)
     = (run_cycles ins st)\<lparr>trace := tr @ new_events (run_cycles ins) st\<rparr> \<and>
   trace (run_cycles ins st) = trace st @ new_events (run_cycles ins) st"
proof (induction ins arbitrary: st tr)
  case Nil
  show ?case by (simp add: new_events_def)
next
  case (Cons i ins)
  let ?s = "loop i st"
  define ev where "ev = new_events (loop i) st @ new_events (run_cycles ins) ?s"
  have t: "trace (run_cycles ins ?s) = trace st @ ev"
    using Cons.IH [where st = ?s] loop_appends(2) [where i = i and st = st]
    by (simp add: ev_def)
  have "new_events (run_cycles (i # ins)) st = drop (length (trace st)) (trace (run_cycles ins ?s))"
    by (simp add: new_events_def)
  also have "\<dots> = ev"
    by (simp only: t append_eq_conv_conj drop_append length_drop) simp
  finally have n: "new_events (run_cycles (i # ins)) st = ev" .
  have "run_cycles (i # ins) (st\<lparr>trace := tr\<rparr>)
          = run_cycles ins (?s\<lparr>trace := tr @ new_events (loop i) st\<rparr>)"
    by (simp add: loop_appends(1))
  also have "\<dots> = (run_cycles ins ?s)\<lparr>trace := (tr @ new_events (loop i) st)
                        @ new_events (run_cycles ins) ?s\<rparr>"
    using Cons.IH [where st = ?s and tr = "tr @ new_events (loop i) st"] by simp
  finally have r: "run_cycles (i # ins) (st\<lparr>trace := tr\<rparr>)
                     = (run_cycles ins ?s)\<lparr>trace := tr @ ev\<rparr>"
    by (simp add: ev_def)
  show ?case
    unfolding n r using t by simp
qed

lemma new_events_trace_indep:
  "new_events (run_cycles ins) (st\<lparr>trace := tr\<rparr>) = new_events (run_cycles ins) st"
  using run_cycles_appends [where ins = ins and st = st and tr = tr] by (simp add: new_events_def)

lemma vstate_trace [simp]: "vstate (st\<lparr>trace := tr\<rparr>) = vstate st"
  by (simp add: vstate_def)

lemma trajectory_trace_indep:
  "map vstate (trajectory ins (st\<lparr>trace := tr\<rparr>)) = map vstate (trajectory ins st)"
proof (induction ins arbitrary: st tr)
  case Nil
  show ?case by simp
next
  case (Cons i ins)
  show ?case by (simp add: loop_appends(1) Cons.IH)
qed

text \<open>The voltage check changes nothing but the trace, and adds no drive event to it.\<close>

lemma read_voltages_only_trace:
  "read_voltages inp st = st\<lparr>trace := trace (read_voltages inp st)\<rparr>"
  by (simp add: read_voltages_def check_voltages_def debug_def emit_def Let_def)

lemma read_voltages_drive_events:
  "drive_events (trace (read_voltages inp st)) = drive_events (trace st)"
  by (simp add: read_voltages_def check_voltages_def debug_def emit_def Let_def drive_events_def
      pin_defs)

lemma setup_voltages_only_trace:
  "sketch_setup (inp\<lparr>raw_bat := b, raw_pem := p\<rparr>) st
     = (sketch_setup inp st)\<lparr>trace := trace (sketch_setup (inp\<lparr>raw_bat := b, raw_pem := p\<rparr>) st)\<rparr>"
proof -
  let ?P = "ready_signal (start_stir (calibrate setup_samples (photo inp) (setup_pins st)))"
  obtain ta where a: "sketch_setup (inp\<lparr>raw_bat := b, raw_pem := p\<rparr>) st = ?P\<lparr>trace := ta\<rparr>"
    using read_voltages_only_trace [of "inp\<lparr>raw_bat := b, raw_pem := p\<rparr>" ?P]
    by (simp add: sketch_setup_def)
  obtain tb where b: "sketch_setup inp st = ?P\<lparr>trace := tb\<rparr>"
    using read_voltages_only_trace [of inp ?P] by (simp add: sketch_setup_def)
  show ?thesis
    unfolding a b by simp
qed

text \<open>
  Claim C6. Two executions from reset that differ only in the two voltage samples visit the
  same states pass by pass and append the same events in the control loop (so the same
  calls of \<open>attachAndWrite\<close> and \<open>detachAndWrite\<close>, at the same places); their
  \<open>setup()\<close> traces have the same drive events, and the control loop starts Idle
  whatever the voltages are. The voltage samples only decide the indicator writes and the
  low-voltage messages of \<open>setup()\<close>.
\<close>

theorem voltage_noninterference:
  "map vstate (trajectory ins (sketch_setup (inp\<lparr>raw_bat := b, raw_pem := p\<rparr>) power_on))
     = map vstate (trajectory ins (sketch_setup inp power_on)) \<and>
   new_events (run_cycles ins) (sketch_setup (inp\<lparr>raw_bat := b, raw_pem := p\<rparr>) power_on)
     = new_events (run_cycles ins) (sketch_setup inp power_on) \<and>
   drive_events (trace (sketch_setup (inp\<lparr>raw_bat := b, raw_pem := p\<rparr>) power_on))
     = drive_events (trace (sketch_setup inp power_on)) \<and>
   vstate (sketch_setup (inp\<lparr>raw_bat := b, raw_pem := p\<rparr>) power_on) = Idle"
proof -
  let ?S' = "sketch_setup (inp\<lparr>raw_bat := b, raw_pem := p\<rparr>) power_on"
  let ?S = "sketch_setup inp power_on"
  have eq: "?S' = ?S\<lparr>trace := trace ?S'\<rparr>" by (rule setup_voltages_only_trace)
  have "map vstate (trajectory ins ?S') = map vstate (trajectory ins ?S)"
    by (subst eq) (rule trajectory_trace_indep)
  moreover have "new_events (run_cycles ins) ?S' = new_events (run_cycles ins) ?S"
    by (subst eq) (rule new_events_trace_indep)
  moreover have "drive_events (trace ?S') = drive_events (trace ?S)"
    by (simp add: sketch_setup_def read_voltages_drive_events)
  moreover have "vstate ?S' = Idle"
    by (simp add: vstate_def power_on_def)
  ultimately show ?thesis by simp
qed

theorem voltage_noninterference_witness:
  "map vstate (trajectory (example_stream 1000 2000 3000 4000)
     (sketch_setup (\<lparr>photo = (\<lambda>_. 1000), raw_bat = 600, raw_pem = 600\<rparr>
                      \<lparr>raw_bat := 100, raw_pem := 100\<rparr>) power_on))
     = [Idle, Running, Running, Stopped]"
proof -
  have "map vstate (trajectory (example_stream 1000 2000 3000 4000)
          (sketch_setup \<lparr>photo = (\<lambda>_. 1000), raw_bat = 600, raw_pem = 600\<rparr> power_on))
        = [Idle, Running, Running, Stopped]"
    unfolding booted_def [symmetric]
    by (simp add: loop_unfold concrete_inputs vstate_def example_stream_def)
  with voltage_noninterference [where ins = "example_stream 1000 2000 3000 4000"
      and inp = "\<lparr>photo = (\<lambda>_. 1000), raw_bat = 600, raw_pem = 600\<rparr>" and b = 100 and p = 100]
  show ?thesis by (simp only:)
qed

end
